theory Spec2Isabelle
  imports Main "HOL-Library.Word"
begin

section \<open>Byte strings, hashes and errors\<close>

text \<open>
  A Go \<^verbatim>\<open>[]byte\<close> is a list of 8-bit characters; the key prefixes of
  \<^verbatim>\<open>store.go\<close> are the byte strings of their Go string literals.
\<close>

type_synonym bytes = "char list"

text \<open>
  Modelled from the spec: \<^verbatim>\<open>bc.Hash\<close> and its method \<^verbatim>\<open>Bytes()\<close> are not part
  of \<^verbatim>\<open>store.go\<close>. The spec's data model says a Hash is a fixed-size (32-byte) content
  identifier, so a hash is a byte string of length 32 and \<open>Bytes\<close> reads its bytes.
\<close>

typedef hash = "{bs :: bytes. length bs = 32}"
  morphisms Bytes Abs_hash
  by (rule exI [of _ "replicate 32 (CHR 0x00)"]) simp

text \<open>
  Go errors: \<^verbatim>\<open>errors.New(msg)\<close> and \<^verbatim>\<open>errors.Wrap(err, msg)\<close>. The errors of
  the codecs are leaves built by \<open>New\<close> as well. A \<^verbatim>\<open>nil\<close> error is \<open>None\<close> of
  \<open>error option\<close>.
\<close>

datatype error = New string | Wrap error string

text \<open>
  \<^verbatim>\<open>common.PanicCrisis(common.Fmt("Could not unmarshal bytes: %X", bytes))\<close> stops the
  process; the model returns the panic as a value that carries the offending bytes.
\<close>

datatype panic = PanicCrisis bytes

section \<open>The key-value substrate\<close>

text \<open>
  Modelled from the spec: the substrate \<^verbatim>\<open>dbm.DB\<close> is an external library. The
  spec's interface section gives its contract: \<^verbatim>\<open>get(key) -> bytes | absent\<close>, and a
  batch that stages writes and applies all of them at once on commit. A database is a
  partial map from keys to values, a batch is the list of staged operations in the order
  they were staged, and \<open>Write\<close> commits them in that order.
\<close>

type_synonym DB = "bytes \<rightharpoonup> bytes"

datatype batch_op = BatchSet bytes bytes | BatchDelete bytes

type_synonym Batch = "batch_op list"

text \<open>The key that a staged operation writes or deletes.\<close>

fun op_key :: "batch_op \<Rightarrow> bytes" where
  "op_key (BatchSet k v) = k"
| "op_key (BatchDelete k) = k"

text \<open>
  Modelled from the spec: the effect of one staged operation of the external substrate on
  the database when the batch is committed.
\<close>

fun apply_op :: "DB \<Rightarrow> batch_op \<Rightarrow> DB" where
  "apply_op d (BatchSet k v) = d(k \<mapsto> v)"
| "apply_op d (BatchDelete k) = d(k := None)"

text \<open>
  Modelled from the spec: \<^verbatim>\<open>db.NewBatch()\<close> of the external substrate, a batch with
  nothing staged.
\<close>

definition NewBatch :: Batch where
  "NewBatch = []"

text \<open>
  Modelled from the spec: \<^verbatim>\<open>batch.Write()\<close> of the external substrate, which applies
  all staged operations, in the order they were staged, or none.
\<close>

definition Write :: "Batch \<Rightarrow> DB \<Rightarrow> DB" where
  "Write batch d = foldl apply_op d batch"

section \<open>Data model\<close>

text \<open>
  Modelled from the spec: \<^verbatim>\<open>types.BlockHeader\<close> and \<^verbatim>\<open>types.Block\<close> are declared
  outside \<^verbatim>\<open>store.go\<close>. The store reads the header's \<^verbatim>\<open>Height\<close> and the block's
  embedded \<^verbatim>\<open>BlockHeader\<close>; the remaining header fields (parent hash, timestamp,
  commitments) stay abstract in \<open>HeaderRest\<close>, and a block is its header and an ordered
  list of transactions.
\<close>

record 'a block_header =
  Height :: "64 word"
  HeaderRest :: 'a

record ('a, 'tx) block =
  BlockHeader :: "'a block_header"
  Transactions :: "'tx list"

text \<open>
  \<^verbatim>\<open>database.BlockStoreStateJSON{Height: ..., Hash: ...}\<close>: a height and a pointer to
  a hash, \<^verbatim>\<open>nil\<close> when the field is not set.
\<close>

record BlockStoreStateJSON =
  StateHeight :: "64 word"
  StateHash :: "hash option"

text \<open>
  The codecs (\<^verbatim>\<open>MarshalText\<close>, \<^verbatim>\<open>UnmarshalText\<close>, \<^verbatim>\<open>proto.Marshal\<close>,
  \<^verbatim>\<open>proto.Unmarshal\<close>, \<^verbatim>\<open>json.Marshal\<close>, \<^verbatim>\<open>json.Unmarshal\<close>), \<^verbatim>\<open>block.Hash()\<close>
  and the helpers \<^verbatim>\<open>saveMainchain\<close>, \<^verbatim>\<open>saveUtxoView\<close>, \<^verbatim>\<open>getMainchain\<close>,
  \<^verbatim>\<open>cleanMainchainDB\<close> are called by \<^verbatim>\<open>store.go\<close> but defined elsewhere. They are
  parameters of the model, collected in one record.

  \<^verbatim>\<open>proto.Marshal\<close> and \<^verbatim>\<open>proto.Unmarshal\<close> appear once for the transaction
  status and once for the seed, which is a hash.

  An encoder returns its bytes or an error. A decoder fills a receiver that starts as the
  zero value and returns an error or \<^verbatim>\<open>nil\<close>: its model returns the receiver as the
  call leaves it, together with the error. A helper that stages writes takes the batch and
  returns it with the error; it is handed the batch only and does not commit it. The Go map \<^verbatim>\<open>map[uint64]*bc.Hash\<close> is an association
  list.
\<close>

record ('a, 'tx, 'ts, 'view) env =
  BlockHash :: "('a, 'tx) block \<Rightarrow> hash"
  Block_MarshalText :: "('a, 'tx) block \<Rightarrow> error + bytes"
  Block_UnmarshalText :: "bytes \<Rightarrow> ('a, 'tx) block \<times> error option"
  Header_MarshalText :: "'a block_header \<Rightarrow> error + bytes"
  Header_UnmarshalText :: "bytes \<Rightarrow> 'a block_header \<times> error option"
  TxStatus_Marshal :: "'ts \<Rightarrow> error + bytes"
  TxStatus_Unmarshal :: "bytes \<Rightarrow> 'ts \<times> error option"
  Hash_Marshal :: "hash \<Rightarrow> error + bytes"
  Hash_Unmarshal :: "bytes \<Rightarrow> hash \<times> error option"
  json_Marshal :: "BlockStoreStateJSON \<Rightarrow> error + bytes"
  json_Unmarshal :: "bytes \<Rightarrow> BlockStoreStateJSON \<times> error option"
  saveMainchain :: "Batch \<Rightarrow> (64 word \<times> hash) list \<Rightarrow> hash \<Rightarrow> Batch \<times> error option"
  saveUtxoView :: "Batch \<Rightarrow> 'view \<Rightarrow> Batch \<times> error option"
  getMainchain :: "DB \<Rightarrow> hash \<Rightarrow> (64 word \<times> hash) list option \<times> error option"
  cleanMainchainDB :: "DB \<Rightarrow> hash \<Rightarrow> DB"
  maxCachedBlocks :: nat

section \<open>Key encoding\<close>

definition blockStoreKey :: bytes where
  "blockStoreKey = ''blockStore''"

definition blockPrefix :: bytes where
  "blockPrefix = ''B:''"

definition blockHeaderPrefix :: bytes where
  "blockHeaderPrefix = ''BH:''"

definition blockSeedPrefix :: bytes where
  "blockSeedPrefix = ''BS:''"

definition txStatusPrefix :: bytes where
  "txStatusPrefix = ''BTS:''"

definition calcBlockKey :: "hash \<Rightarrow> bytes" where
  "calcBlockKey h = blockPrefix @ Bytes h"

definition calcBlockHeaderKey :: "hash \<Rightarrow> bytes" where
  "calcBlockHeaderKey h = blockHeaderPrefix @ Bytes h"

definition calcSeedKey :: "hash \<Rightarrow> bytes" where
  "calcSeedKey h = blockSeedPrefix @ Bytes h"

definition calcTxStatusKey :: "hash \<Rightarrow> bytes" where
  "calcTxStatusKey h = txStatusPrefix @ Bytes h"

section \<open>Reading the checkpoint\<close>

definition loadBlockStoreStateJSON ::
  "('a, 'tx, 'ts, 'view) env \<Rightarrow> DB \<Rightarrow> panic + BlockStoreStateJSON" where
  "loadBlockStoreStateJSON E d =
     (case d blockStoreKey of
        None \<Rightarrow> Inr \<lparr>StateHeight = 0, StateHash = None\<rparr>
      | Some bs \<Rightarrow>
          (case json_Unmarshal E bs of
             (bsj, Some err) \<Rightarrow> Inl (PanicCrisis bs)
           | (bsj, None) \<Rightarrow> Inr bsj))"

section \<open>The block cache\<close>

text \<open>
  Modelled from the spec: \<^verbatim>\<open>blockCache\<close>, \<^verbatim>\<open>newBlockCache\<close> and the method
  \<^verbatim>\<open>lookup\<close> are defined outside \<^verbatim>\<open>store.go\<close>. The spec's contract is
  \<^verbatim>\<open>lookup(hash) -> Block | NotFound\<close>: a hit returns the cached block without touching
  the substrate, a miss calls the loader, a loaded block is cached under the hash that was
  asked for, absence is not cached, and the capacity is bounded with least-recently-used
  eviction. The cache is the list of its entries, most recently used first. One call at a
  time is modelled.
\<close>

type_synonym ('a, 'tx) blockCache = "(hash \<times> ('a, 'tx) block) list"

text \<open>Modelled from the spec: \<^verbatim>\<open>newBlockCache\<close>, a cache with no entry.\<close>

definition newBlockCache :: "('a, 'tx) blockCache" where
  "newBlockCache = []"

text \<open>
  Modelled from the spec: the error of a lookup whose loader finds no block, the spec's
  \<^verbatim>\<open>NotFound\<close>.
\<close>

definition errBlockNotFound :: error where
  "errBlockNotFound = New ''NotFound''"

text \<open>
  Modelled from the spec: the method \<^verbatim>\<open>lookup\<close> of the cache, with the capacity and
  the loader as arguments. A hit moves the entry to the front; a miss that loads a block
  puts it in front and drops what no longer fits; a miss that loads nothing leaves the
  cache as it is.
\<close>

definition lookup ::
  "nat \<Rightarrow> (hash \<Rightarrow> ('a, 'tx) block option) \<Rightarrow> ('a, 'tx) blockCache \<Rightarrow> hash \<Rightarrow>
   (('a, 'tx) block option \<times> error option) \<times> ('a, 'tx) blockCache" where
  "lookup cap fillFn c h =
     (case map_of c h of
        Some b \<Rightarrow> ((Some b, None), (h, b) # filter (\<lambda>e. fst e \<noteq> h) c)
      | None \<Rightarrow>
          (case fillFn h of
             None \<Rightarrow> ((None, Some errBlockNotFound), c)
           | Some b \<Rightarrow> ((Some b, None), take cap ((h, b) # c))))"

section \<open>The store\<close>

text \<open>
  A \<^verbatim>\<open>Store\<close> holds the database handle and the cache. The methods change the store
  in place and return a value or an error; the model passes the store and returns it
  with the result. A Go result of a pointer and an error is a pair of options, \<open>None\<close> for
  \<^verbatim>\<open>nil\<close>. Pointer arguments are taken to be non-nil.
\<close>

record ('a, 'tx) Store =
  db :: DB
  cache :: "('a, 'tx) blockCache"

definition GetBlock ::
  "('a, 'tx, 'ts, 'view) env \<Rightarrow> DB \<Rightarrow> hash \<Rightarrow> ('a, 'tx) block option" where
  "GetBlock E d h =
     (case d (calcBlockKey h) of
        None \<Rightarrow> None
      | Some bytez \<Rightarrow> Some (fst (Block_UnmarshalText E bytez)))"

text \<open>
  The loader that \<^verbatim>\<open>NewStore\<close> gives the cache is the closure
  \<^verbatim>\<open>func(hash) { return GetBlock(db, hash) }\<close>: it reads the database as it is when the
  cache calls it, so the methods below pass \<open>GetBlock E (db s)\<close> to \<open>lookup\<close>.
\<close>

definition NewStore :: "DB \<Rightarrow> ('a, 'tx) Store" where
  "NewStore d = \<lparr>db = d, cache = newBlockCache\<rparr>"

definition Store_BlockExist ::
  "('a, 'tx, 'ts, 'view) env \<Rightarrow> ('a, 'tx) Store \<Rightarrow> hash \<Rightarrow> bool \<times> ('a, 'tx) Store" where
  "Store_BlockExist E s h =
     (case lookup (maxCachedBlocks E) (GetBlock E (db s)) (cache s) h of
        ((block, err), c) \<Rightarrow> (err = None \<and> block \<noteq> None, s\<lparr>cache := c\<rparr>))"

definition Store_GetBlock ::
  "('a, 'tx, 'ts, 'view) env \<Rightarrow> ('a, 'tx) Store \<Rightarrow> hash \<Rightarrow>
   (('a, 'tx) block option \<times> error option) \<times> ('a, 'tx) Store" where
  "Store_GetBlock E s h =
     (case lookup (maxCachedBlocks E) (GetBlock E (db s)) (cache s) h of
        (r, c) \<Rightarrow> (r, s\<lparr>cache := c\<rparr>))"

definition GetBlockHeader ::
  "('a, 'tx, 'ts, 'view) env \<Rightarrow> ('a, 'tx) Store \<Rightarrow> hash \<Rightarrow>
   'a block_header option \<times> error option" where
  "GetBlockHeader E s h =
     (case db s (calcBlockHeaderKey h) of
        None \<Rightarrow> (None, Some (New ''can't find the block header by given hash''))
      | Some bytez \<Rightarrow>
          (case Header_UnmarshalText E bytez of (bh, err) \<Rightarrow> (Some bh, err)))"

definition GetSeed ::
  "('a, 'tx, 'ts, 'view) env \<Rightarrow> ('a, 'tx) Store \<Rightarrow> hash \<Rightarrow> hash option \<times> error option" where
  "GetSeed E s h =
     (case db s (calcSeedKey h) of
        None \<Rightarrow> (None, Some (New ''can't find the seed by given hash''))
      | Some data \<Rightarrow>
          (case Hash_Unmarshal E data of
             (seed, Some err) \<Rightarrow> (None, Some (Wrap err ''unmarshaling seed''))
           | (seed, None) \<Rightarrow> (Some seed, None)))"

definition GetTransactionStatus ::
  "('a, 'tx, 'ts, 'view) env \<Rightarrow> ('a, 'tx) Store \<Rightarrow> hash \<Rightarrow> 'ts option \<times> error option" where
  "GetTransactionStatus E s h =
     (case db s (calcTxStatusKey h) of
        None \<Rightarrow> (None, Some (New ''can't find the transaction status by given hash''))
      | Some data \<Rightarrow>
          (case TxStatus_Unmarshal E data of
             (ts, Some err) \<Rightarrow> (None, Some (Wrap err ''unmarshaling transaction status''))
           | (ts, None) \<Rightarrow> (Some ts, None)))"

definition GetStoreStatus ::
  "('a, 'tx, 'ts, 'view) env \<Rightarrow> ('a, 'tx) Store \<Rightarrow> panic + BlockStoreStateJSON" where
  "GetStoreStatus E s = loadBlockStoreStateJSON E (db s)"

definition GetMainchain ::
  "('a, 'tx, 'ts, 'view) env \<Rightarrow> ('a, 'tx) Store \<Rightarrow> hash \<Rightarrow>
   (64 word \<times> hash) list option \<times> error option" where
  "GetMainchain E s h = getMainchain E (db s) h"

definition SaveBlock ::
  "('a, 'tx, 'ts, 'view) env \<Rightarrow> ('a, 'tx) Store \<Rightarrow> ('a, 'tx) block \<Rightarrow> 'ts \<Rightarrow> hash \<Rightarrow>
   ('a, 'tx) Store \<times> error option" where
  "SaveBlock E s block ts seed =
     (case Block_MarshalText E block of
        Inl err \<Rightarrow> (s, Some (Wrap err ''Marshal block meta''))
      | Inr binaryBlock \<Rightarrow>
     (case Header_MarshalText E (BlockHeader block) of
        Inl err \<Rightarrow> (s, Some (Wrap err ''Marshal block header''))
      | Inr binaryBlockHeader \<Rightarrow>
     (case TxStatus_Marshal E ts of
        Inl err \<Rightarrow> (s, Some (Wrap err ''marshal block transaction status''))
      | Inr binaryTxStatus \<Rightarrow>
     (case Hash_Marshal E seed of
        Inl err \<Rightarrow> (s, Some (Wrap err ''marshal block seed''))
      | Inr binarySeed \<Rightarrow>
          (let blockHash = BlockHash E block;
               batch = NewBatch @
                 [BatchSet (calcBlockKey blockHash) binaryBlock,
                  BatchSet (calcBlockHeaderKey blockHash) binaryBlockHeader,
                  BatchSet (calcTxStatusKey blockHash) binaryTxStatus,
                  BatchSet (calcSeedKey blockHash) binarySeed]
           in (s\<lparr>db := Write batch (db s)\<rparr>, None))))))"

definition SaveChainStatus ::
  "('a, 'tx, 'ts, 'view) env \<Rightarrow> ('a, 'tx) Store \<Rightarrow> ('a, 'tx) block \<Rightarrow> 'view \<Rightarrow>
   (64 word \<times> hash) list \<Rightarrow> ('a, 'tx) Store \<times> error option" where
  "SaveChainStatus E s block view m =
     (let hash = BlockHash E block in
      (case saveMainchain E NewBatch m hash of
         (batch1, Some err) \<Rightarrow> (s, Some err)
       | (batch1, None) \<Rightarrow>
      (case saveUtxoView E batch1 view of
         (batch2, Some err) \<Rightarrow> (s, Some err)
       | (batch2, None) \<Rightarrow>
      (case json_Marshal E \<lparr>StateHeight = Height (BlockHeader block), StateHash = Some hash\<rparr> of
         Inl err \<Rightarrow> (s, Some err)
       | Inr bytes \<Rightarrow>
           (let batch3 = batch2 @ [BatchSet blockStoreKey bytes];
                d = Write batch3 (db s)
            in (s\<lparr>db := cleanMainchainDB E d hash\<rparr>, None))))))"

definition SaveUtxoView ::
  "('a, 'tx, 'ts, 'view) env \<Rightarrow> ('a, 'tx) Store \<Rightarrow> 'view \<Rightarrow> ('a, 'tx) Store \<times> error option" where
  "SaveUtxoView E s view = (s, snd (saveUtxoView E NewBatch view))"

section \<open>A small instance of the parameters\<close>

text \<open>
  A concrete environment on which the model runs: heights and transaction statuses are
  written in unary, a block is encoded when it has no transactions, a mainchain map when
  it has at most one entry, and every decoder rejects the byte strings its encoder does
  not produce. The mainchain map of a tip is kept under \<^verbatim>\<open>"MC:"\<close> followed by the tip's
  hash, and pruning removes every other \<^verbatim>\<open>"MC:"\<close> key.
\<close>

definition zero_hash :: hash where
  "zero_hash = Abs_hash (replicate 32 (CHR 0x00))"

definition demo_Header_Marshal :: "unit block_header \<Rightarrow> error + bytes" where
  "demo_Header_Marshal bh = Inr (replicate (unat (Height bh)) (CHR ''h''))"

definition demo_Header_Unmarshal :: "bytes \<Rightarrow> unit block_header \<times> error option" where
  "demo_Header_Unmarshal bs =
     (if bs = replicate (length bs) (CHR ''h'')
      then (\<lparr>Height = of_nat (length bs), HeaderRest = ()\<rparr>, None)
      else (\<lparr>Height = 0, HeaderRest = ()\<rparr>, Some (New ''invalid header'')))"

definition demo_Block_Marshal :: "(unit, nat) block \<Rightarrow> error + bytes" where
  "demo_Block_Marshal b =
     (if Transactions b = []
      then Inr (CHR ''b'' # replicate (unat (Height (BlockHeader b))) (CHR ''h''))
      else Inl (New ''unsupported block''))"

definition demo_Block_Unmarshal :: "bytes \<Rightarrow> (unit, nat) block \<times> error option" where
  "demo_Block_Unmarshal bs =
     (if bs = CHR ''b'' # replicate (length bs - 1) (CHR ''h'')
      then (\<lparr>BlockHeader = \<lparr>Height = of_nat (length bs - 1), HeaderRest = ()\<rparr>,
              Transactions = []\<rparr>, None)
      else (\<lparr>BlockHeader = \<lparr>Height = 0, HeaderRest = ()\<rparr>, Transactions = []\<rparr>,
            Some (New ''invalid block'')))"

definition demo_TxStatus_Marshal :: "nat \<Rightarrow> error + bytes" where
  "demo_TxStatus_Marshal n = Inr (replicate n (CHR ''t''))"

definition demo_TxStatus_Unmarshal :: "bytes \<Rightarrow> nat \<times> error option" where
  "demo_TxStatus_Unmarshal bs =
     (if bs = replicate (length bs) (CHR ''t'')
      then (length bs, None)
      else (0, Some (New ''invalid transaction status'')))"

definition demo_Hash_Marshal :: "hash \<Rightarrow> error + bytes" where
  "demo_Hash_Marshal h = Inr (Bytes h)"

definition demo_Hash_Unmarshal :: "bytes \<Rightarrow> hash \<times> error option" where
  "demo_Hash_Unmarshal bs =
     (if length bs = 32 then (Abs_hash bs, None)
      else (zero_hash, Some (New ''invalid hash'')))"

definition demo_json_Marshal :: "BlockStoreStateJSON \<Rightarrow> error + bytes" where
  "demo_json_Marshal j =
     Inr (case StateHash j of
            None \<Rightarrow> CHR ''n'' # replicate (unat (StateHeight j)) (CHR ''j'')
          | Some h \<Rightarrow> CHR ''s'' # Bytes h @ replicate (unat (StateHeight j)) (CHR ''j''))"

definition demo_json_Unmarshal :: "bytes \<Rightarrow> BlockStoreStateJSON \<times> error option" where
  "demo_json_Unmarshal bs =
     (if bs \<noteq> [] \<and> hd bs = CHR ''n''
      then (\<lparr>StateHeight = of_nat (length bs - 1), StateHash = None\<rparr>, None)
      else if 33 \<le> length bs \<and> hd bs = CHR ''s''
      then (\<lparr>StateHeight = of_nat (length bs - 33),
              StateHash = Some (Abs_hash (take 32 (tl bs)))\<rparr>, None)
      else (\<lparr>StateHeight = 0, StateHash = None\<rparr>, Some (New ''invalid checkpoint'')))"

definition demo_mainchainKey :: "hash \<Rightarrow> bytes" where
  "demo_mainchainKey h = ''MC:'' @ Bytes h"

definition demo_saveMainchain ::
  "Batch \<Rightarrow> (64 word \<times> hash) list \<Rightarrow> hash \<Rightarrow> Batch \<times> error option" where
  "demo_saveMainchain batch m h =
     (case m of
        [] \<Rightarrow> (batch @ [BatchSet (demo_mainchainKey h) []], None)
      | [(ht, x)] \<Rightarrow>
          (batch @ [BatchSet (demo_mainchainKey h)
                      (Bytes x @ replicate (unat ht) (CHR ''m''))], None)
      | _ \<Rightarrow> (batch, Some (New ''unsupported mainchain'')))"

definition demo_getMainchain ::
  "DB \<Rightarrow> hash \<Rightarrow> (64 word \<times> hash) list option \<times> error option" where
  "demo_getMainchain d h =
     (case d (demo_mainchainKey h) of
        None \<Rightarrow> (None, Some (New ''no mainchain''))
      | Some bs \<Rightarrow>
          (if bs = [] then (Some [], None)
           else if 32 \<le> length bs
           then (Some [(of_nat (length bs - 32), Abs_hash (take 32 bs))], None)
           else (None, Some (New ''invalid mainchain''))))"

definition demo_cleanMainchainDB :: "DB \<Rightarrow> hash \<Rightarrow> DB" where
  "demo_cleanMainchainDB d h =
     (\<lambda>k. if take 3 k = ''MC:'' \<and> k \<noteq> demo_mainchainKey h then None else d k)"

definition demo_saveUtxoView :: "Batch \<Rightarrow> bytes list \<Rightarrow> Batch \<times> error option" where
  "demo_saveUtxoView batch view =
     (batch @ map (\<lambda>k. BatchSet (''UT:'' @ k) ''utxo'') view, None)"

definition demo_BlockHash :: "(unit, nat) block \<Rightarrow> hash" where
  "demo_BlockHash b =
     Abs_hash (replicate 32 (if Height (BlockHeader b) = 1 then CHR ''a'' else CHR ''z''))"

definition demo_env :: "(unit, nat, nat, bytes list) env" where
  "demo_env =
     \<lparr>BlockHash = demo_BlockHash,
      Block_MarshalText = demo_Block_Marshal,
      Block_UnmarshalText = demo_Block_Unmarshal,
      Header_MarshalText = demo_Header_Marshal,
      Header_UnmarshalText = demo_Header_Unmarshal,
      TxStatus_Marshal = demo_TxStatus_Marshal,
      TxStatus_Unmarshal = demo_TxStatus_Unmarshal,
      Hash_Marshal = demo_Hash_Marshal,
      Hash_Unmarshal = demo_Hash_Unmarshal,
      json_Marshal = demo_json_Marshal,
      json_Unmarshal = demo_json_Unmarshal,
      saveMainchain = demo_saveMainchain,
      saveUtxoView = demo_saveUtxoView,
      getMainchain = demo_getMainchain,
      cleanMainchainDB = demo_cleanMainchainDB,
      maxCachedBlocks = 2\<rparr>"

definition demo_block :: "64 word \<Rightarrow> (unit, nat) block" where
  "demo_block ht = \<lparr>BlockHeader = \<lparr>Height = ht, HeaderRest = ()\<rparr>, Transactions = []\<rparr>"

definition demo_hash :: "char \<Rightarrow> hash" where
  "demo_hash c = Abs_hash (replicate 32 c)"

definition empty_store :: "(unit, nat) Store" where
  "empty_store = NewStore Map.empty"

section \<open>What the store expects of the helpers\<close>

text \<open>
  Modelled from the spec: \<^verbatim>\<open>saveMainchain\<close>, \<^verbatim>\<open>saveUtxoView\<close>, \<^verbatim>\<open>getMainchain\<close>
  and \<^verbatim>\<open>cleanMainchainDB\<close> are defined outside \<^verbatim>\<open>store.go\<close>. The spec says that
  each record kind owns its own key range, that the index update and the UTXO diff are
  staged into the batch of the enclosing operation, and that pruning removes only
  superseded index entries, never a block, header, seed or status record.
  \<open>stages_outside P\<close> says that a helper only appended operations, none on a key in
  \<open>P\<close>; \<open>prune_keeps E P\<close> that pruning leaves the keys in \<open>P\<close> as they are.
\<close>

text \<open>
  Modelled from the spec: a staging helper appends to the batch it is given, and none of
  the appended operations is on a key in \<open>P\<close>.
\<close>

definition stages_outside :: "(bytes \<Rightarrow> bool) \<Rightarrow> Batch \<Rightarrow> Batch \<Rightarrow> bool" where
  "stages_outside P batch batch' \<longleftrightarrow>
     (\<exists>ops. batch' = batch @ ops \<and> (\<forall>x \<in> set ops. \<not> P (op_key x)))"

text \<open>
  Modelled from the spec: \<^verbatim>\<open>saveMainchain\<close> and \<^verbatim>\<open>saveUtxoView\<close>, when they
  succeed, have staged nothing on a key in \<open>P\<close>.
\<close>

definition stages_keep :: "('a, 'tx, 'ts, 'view) env \<Rightarrow> (bytes \<Rightarrow> bool) \<Rightarrow> bool" where
  "stages_keep E P \<longleftrightarrow>
     (\<forall>batch m h batch'. saveMainchain E batch m h = (batch', None) \<longrightarrow>
        stages_outside P batch batch') \<and>
     (\<forall>batch v batch'. saveUtxoView E batch v = (batch', None) \<longrightarrow>
        stages_outside P batch batch')"

text \<open>
  Modelled from the spec: \<^verbatim>\<open>cleanMainchainDB\<close> leaves every key in \<open>P\<close> as it is.
\<close>

definition prune_keeps :: "('a, 'tx, 'ts, 'view) env \<Rightarrow> (bytes \<Rightarrow> bool) \<Rightarrow> bool" where
  "prune_keeps E P \<longleftrightarrow> (\<forall>d h k. P k \<longrightarrow> cleanMainchainDB E d h k = d k)"

text \<open>
  The keys of the four block records, one of the four prefixes and 32 more bytes, and the
  key of the checkpoint.
\<close>

definition blockFamilyKey :: "bytes \<Rightarrow> bool" where
  "blockFamilyKey k \<longleftrightarrow>
     (\<exists>p \<in> set [blockPrefix, blockHeaderPrefix, blockSeedPrefix, txStatusPrefix].
        length k = length p + 32 \<and> take (length p) k = p)"

definition isCheckpointKey :: "bytes \<Rightarrow> bool" where
  "isCheckpointKey k \<longleftrightarrow> k = blockStoreKey"

text \<open>
  Modelled from the spec: the mainchain index behind \<^verbatim>\<open>saveMainchain\<close>,
  \<^verbatim>\<open>getMainchain\<close> and \<^verbatim>\<open>cleanMainchainDB\<close>. The spec says that advancing the chain
  writes the index entries of the given heights in the enclosing batch, that the UTXO
  diff and the checkpoint live under keys of their own, and that pruning removes only
  entries that are not reachable from the new tip. In terms of what \<^verbatim>\<open>getMainchain\<close>
  returns: once the operations staged by \<^verbatim>\<open>saveMainchain\<close> for a tip are written, the
  map read back for that tip agrees with the map that was saved; the operations staged by
  \<^verbatim>\<open>saveUtxoView\<close> and a write of the checkpoint key do not change what is read; and
  pruning for a tip does not change what is read for that tip.
\<close>

definition index_contract :: "('a, 'tx, 'ts, 'view) env \<Rightarrow> bool" where
  "index_contract E \<longleftrightarrow>
     (\<forall>batch m h batch'. saveMainchain E batch m h = (batch', None) \<longrightarrow>
        (\<exists>ops. batch' = batch @ ops \<and>
           (\<forall>d. \<exists>mc. getMainchain E (Write ops d) h = (Some mc, None) \<and>
                 (\<forall>ht \<in> dom (map_of m). map_of mc ht = map_of m ht)))) \<and>
     (\<forall>batch v batch'. saveUtxoView E batch v = (batch', None) \<longrightarrow>
        (\<exists>ops. batch' = batch @ ops \<and>
           (\<forall>d h. getMainchain E (Write ops d) h = getMainchain E d h))) \<and>
     (\<forall>d bs h. getMainchain E (d(blockStoreKey \<mapsto> bs)) h = getMainchain E d h) \<and>
     (\<forall>d h. getMainchain E (cleanMainchainDB E d h) h = getMainchain E d h)"

text \<open>
  A codec decodes a value back when decoding the bytes its encoder produced for that value
  gives the value again, without an error.
\<close>

definition decodes_back ::
  "('x \<Rightarrow> error + bytes) \<Rightarrow> (bytes \<Rightarrow> 'x \<times> error option) \<Rightarrow> 'x \<Rightarrow> bool" where
  "decodes_back enc dec x \<longleftrightarrow> (\<forall>bs. enc x = Inr bs \<longrightarrow> dec bs = (x, None))"

section \<open>Histories of calls\<close>

text \<open>
  The calls that change a store: the two write operations, the method \<open>SaveUtxoView\<close>,
  the two cached reads, and opening a new store on the same database. A history is a list
  of calls, run from left to right. \<open>saved\<close> lists the blocks that a history passed to
  \<open>SaveBlock\<close>.
\<close>

datatype ('a, 'tx, 'ts, 'view) call =
    CallSaveBlock "('a, 'tx) block" 'ts hash
  | CallSaveChainStatus "('a, 'tx) block" 'view "(64 word \<times> hash) list"
  | CallSaveUtxoView 'view
  | CallGetBlock hash
  | CallBlockExist hash
  | CallNewStore

fun step ::
  "('a, 'tx, 'ts, 'view) env \<Rightarrow> ('a, 'tx) Store \<Rightarrow> ('a, 'tx, 'ts, 'view) call \<Rightarrow>
   ('a, 'tx) Store" where
  "step E s (CallSaveBlock b ts seed) = fst (SaveBlock E s b ts seed)"
| "step E s (CallSaveChainStatus b v m) = fst (SaveChainStatus E s b v m)"
| "step E s (CallSaveUtxoView v) = fst (SaveUtxoView E s v)"
| "step E s (CallGetBlock h) = snd (Store_GetBlock E s h)"
| "step E s (CallBlockExist h) = snd (Store_BlockExist E s h)"
| "step E s CallNewStore = NewStore (db s)"

definition run ::
  "('a, 'tx, 'ts, 'view) env \<Rightarrow> ('a, 'tx) Store \<Rightarrow> ('a, 'tx, 'ts, 'view) call list \<Rightarrow>
   ('a, 'tx) Store" where
  "run E s calls = foldl (step E) s calls"

fun saved :: "('a, 'tx, 'ts, 'view) call list \<Rightarrow> ('a, 'tx) block list" where
  "saved [] = []"
| "saved (CallSaveBlock b ts seed # calls) = b # saved calls"
| "saved (c # calls) = saved calls"

text \<open>
  The invariant of a store whose history saved the given blocks: every value under a
  block key is the encoding of a saved block with that hash, and every cache entry is what
  the loader returns for its hash on the present database.
\<close>

definition store_inv ::
  "('a, 'tx, 'ts, 'view) env \<Rightarrow> ('a, 'tx) block set \<Rightarrow> ('a, 'tx) Store \<Rightarrow> bool" where
  "store_inv E blocks s \<longleftrightarrow>
     (\<forall>h bs. db s (calcBlockKey h) = Some bs \<longrightarrow>
        (\<exists>b \<in> blocks. BlockHash E b = h \<and> Block_MarshalText E b = Inr bs)) \<and>
     (\<forall>e \<in> set (cache s). GetBlock E (db s) (fst e) = Some (snd e))"

text \<open>A history on the small instance: a miss, a saved block, a hit, an advanced chain.\<close>

definition demo_history :: "(unit, nat, nat, bytes list) call list" where
  "demo_history =
     [CallGetBlock (demo_hash (CHR ''a'')),
      CallSaveBlock (demo_block 2) 0 zero_hash,
      CallGetBlock (demo_hash (CHR ''z'')),
      CallSaveChainStatus (demo_block 2) [''k''] [(2, demo_hash (CHR ''z''))]]"

section \<open>Batches, hashes and keys\<close>

lemma Write_Nil: "Write [] d = d"
  by (simp add: Write_def)

lemma Write_Cons: "Write (x # xs) d = Write xs (apply_op d x)"
  by (simp add: Write_def)

lemma Write_append: "Write (xs @ ys) d = Write ys (Write xs d)"
  by (simp add: Write_def)

lemma Write_idem4: "Write [BatchSet k1 v1, BatchSet k2 v2, BatchSet k3 v3, BatchSet k4 v4]
   (Write [BatchSet k1 v1, BatchSet k2 v2, BatchSet k3 v3, BatchSet k4 v4] d) =
   Write [BatchSet k1 v1, BatchSet k2 v2, BatchSet k3 v3, BatchSet k4 v4] d"
  by (rule ext) (simp add: Write_def)

lemma Write_last_Set: "Write (batch @ [BatchSet k v]) d k = Some v"
  by (simp add: Write_append Write_def)

lemma Write_outside:
  "\<forall>x \<in> set ops. op_key x \<noteq> k \<Longrightarrow> Write ops d k = d k"
proof (induction ops arbitrary: d)
  case Nil
  then show ?case by (simp add: Write_Nil)
next
  case (Cons x ops)
  then show ?case by (cases x) (auto simp: Write_Cons)
qed

lemma Bytes_length: "length (Bytes h) = 32"
  using Bytes [of h] by simp

lemma key_distinct:
  "calcBlockKey h \<noteq> calcBlockHeaderKey h'" "calcBlockKey h \<noteq> calcSeedKey h'" "calcBlockKey h \<noteq> calcTxStatusKey h'"
  "calcBlockHeaderKey h \<noteq> calcSeedKey h'" "calcBlockHeaderKey h \<noteq> calcTxStatusKey h'"
  "calcSeedKey h \<noteq> calcTxStatusKey h'"
  by (simp_all add: calcBlockKey_def calcBlockHeaderKey_def calcSeedKey_def calcTxStatusKey_def 
      blockPrefix_def blockHeaderPrefix_def blockSeedPrefix_def txStatusPrefix_def)

lemma calc_inject:
  "calcBlockKey h = calcBlockKey h' \<longleftrightarrow> h = h'"
  "calcBlockHeaderKey h = calcBlockHeaderKey h' \<longleftrightarrow> h = h'"
  "calcSeedKey h = calcSeedKey h' \<longleftrightarrow> h = h'"
  "calcTxStatusKey h = calcTxStatusKey h' \<longleftrightarrow> h = h'"
  by (simp_all add: calcBlockKey_def calcBlockHeaderKey_def calcSeedKey_def
      calcTxStatusKey_def Bytes_inject)

lemma blockFamilyKey_calc:
  "blockFamilyKey (calcBlockKey h)" "blockFamilyKey (calcBlockHeaderKey h)"
  "blockFamilyKey (calcSeedKey h)" "blockFamilyKey (calcTxStatusKey h)"
  by (simp_all add: blockFamilyKey_def calcBlockKey_def calcBlockHeaderKey_def
      calcSeedKey_def calcTxStatusKey_def Bytes_length)

lemma blockStoreKey_not_family: "\<not> blockFamilyKey blockStoreKey"
  by (simp add: blockFamilyKey_def blockStoreKey_def blockPrefix_def blockHeaderPrefix_def
      blockSeedPrefix_def txStatusPrefix_def)

lemma take_1_of_take: "take n k = p \<Longrightarrow> 1 \<le> n \<Longrightarrow> take 1 k = take 1 p"
  by (auto simp: min_def)

lemma blockFamilyKey_B:
  assumes "blockFamilyKey k"
  shows "take 1 k = ''B''"
proof -
  from assms obtain p where
    p: "p \<in> set [blockPrefix, blockHeaderPrefix, blockSeedPrefix, txStatusPrefix]"
    and t: "take (length p) k = p"
    by (auto simp: blockFamilyKey_def)
  from p have "1 \<le> length p" "take 1 p = ''B''"
    by (auto simp: blockPrefix_def blockHeaderPrefix_def blockSeedPrefix_def
        txStatusPrefix_def)
  with take_1_of_take [OF t] show ?thesis by simp
qed

lemma not_blockFamilyKey: "take 1 k \<noteq> ''B'' \<Longrightarrow> \<not> blockFamilyKey k"
  using blockFamilyKey_B by blast

section \<open>What the write operations change\<close>

lemma SaveBlock_db:
  "db (fst (SaveBlock E s b ts seed)) k = db s k \<or>
   snd (SaveBlock E s b ts seed) = None \<and>
   k \<in> {calcBlockKey (BlockHash E b), calcBlockHeaderKey (BlockHash E b),
         calcTxStatusKey (BlockHash E b), calcSeedKey (BlockHash E b)}"
  by (auto simp: SaveBlock_def Let_def NewBatch_def Write_def split: sum.splits)

lemma SaveChainStatus_keeps:
  assumes "stages_keep E P" "prune_keeps E P" "\<not> P blockStoreKey" "P k"
  shows "db (fst (SaveChainStatus E s b v m)) k = db s k"
proof (cases "snd (SaveChainStatus E s b v m)")
  case (Some e)
  then show ?thesis
    by (auto simp: SaveChainStatus_def Let_def split: prod.splits option.splits sum.splits)
next
  case None
  then obtain batch1 batch2 bytes where
    m: "saveMainchain E NewBatch m (BlockHash E b) = (batch1, None)" and
    u: "saveUtxoView E batch1 v = (batch2, None)" and
    r: "fst (SaveChainStatus E s b v m) =
        s\<lparr>db := cleanMainchainDB E (Write (batch2 @ [BatchSet blockStoreKey bytes]) (db s))
                  (BlockHash E b)\<rparr>"
    by (auto simp: SaveChainStatus_def Let_def split: prod.splits option.splits sum.splits)
  from assms(1) m have "stages_outside P NewBatch batch1"
    unfolding stages_keep_def by blast
  then have o1: "\<forall>x \<in> set batch1. \<not> P (op_key x)"
    by (auto simp: stages_outside_def NewBatch_def)
  from assms(1) u have "stages_outside P batch1 batch2"
    unfolding stages_keep_def by blast
  then obtain ops2 where
    o2: "batch2 = batch1 @ ops2" "\<forall>x \<in> set ops2. \<not> P (op_key x)"
    by (auto simp: stages_outside_def)
  have "\<forall>x \<in> set (batch2 @ [BatchSet blockStoreKey bytes]). op_key x \<noteq> k"
    using o1 o2 assms(3,4) by auto
  then have "Write (batch2 @ [BatchSet blockStoreKey bytes]) (db s) k = db s k"
    by (rule Write_outside)
  with r assms(2,4) show ?thesis
    by (simp add: prune_keeps_def)
qed

lemma lookup_db [simp]:
  "db (snd (Store_GetBlock E s h)) = db s" "db (snd (Store_BlockExist E s h)) = db s"
  by (auto simp: Store_GetBlock_def Store_BlockExist_def split: prod.splits)

lemma saved_append: "saved (xs @ ys) = saved xs @ saved ys"
  by (induction xs rule: saved.induct) simp_all

lemma run_snoc: "run E s (calls @ [c]) = step E (run E s calls) c"
  by (simp add: run_def)

lemma step_keeps_absent:
  assumes "stages_keep E blockFamilyKey" "prune_keeps E blockFamilyKey"
    and "H \<notin> BlockHash E ` set (saved [c])"
    and "k \<in> {calcBlockKey H, calcBlockHeaderKey H, calcSeedKey H, calcTxStatusKey H}"
  shows "db (step E s c) k = db s k"
proof (cases c)
  case (CallSaveBlock b ts seed)
  with assms(3) have ne: "BlockHash E b \<noteq> H" by auto
  have "k \<notin> {calcBlockKey (BlockHash E b), calcBlockHeaderKey (BlockHash E b),
         calcTxStatusKey (BlockHash E b), calcSeedKey (BlockHash E b)}"
    using assms(4) ne key_distinct key_distinct [symmetric] by (auto simp: calc_inject)
  with SaveBlock_db [of E s b ts seed k] CallSaveBlock show ?thesis by auto
next
  case (CallSaveChainStatus b v m)
  have "blockFamilyKey k" using assms(4) blockFamilyKey_calc by auto
  with SaveChainStatus_keeps [OF assms(1,2) blockStoreKey_not_family] CallSaveChainStatus
  show ?thesis by simp
qed (simp_all add: SaveUtxoView_def NewStore_def)

lemma run_keeps_absent:
  assumes "stages_keep E blockFamilyKey" "prune_keeps E blockFamilyKey"
    and "H \<notin> BlockHash E ` set (saved calls)"
    and "k \<in> {calcBlockKey H, calcBlockHeaderKey H, calcSeedKey H, calcTxStatusKey H}"
  shows "db (run E s calls) k = db s k"
  using assms(3)
proof (induction calls rule: rev_induct)
  case Nil
  then show ?case by (simp add: run_def)
next
  case (snoc c calls)
  then have "H \<notin> BlockHash E ` set (saved calls)" "H \<notin> BlockHash E ` set (saved [c])"
    by (auto simp: saved_append)
  with snoc.IH step_keeps_absent [OF assms(1,2) _ assms(4)] show ?case
    by (simp add: run_snoc)
qed

section \<open>The small instance meets the expectations\<close>

lemma demo_env_sel [simp]:
  "BlockHash demo_env = demo_BlockHash"
  "Block_MarshalText demo_env = demo_Block_Marshal"
  "Block_UnmarshalText demo_env = demo_Block_Unmarshal"
  "Header_MarshalText demo_env = demo_Header_Marshal"
  "Header_UnmarshalText demo_env = demo_Header_Unmarshal"
  "TxStatus_Marshal demo_env = demo_TxStatus_Marshal"
  "TxStatus_Unmarshal demo_env = demo_TxStatus_Unmarshal"
  "Hash_Marshal demo_env = demo_Hash_Marshal"
  "Hash_Unmarshal demo_env = demo_Hash_Unmarshal"
  "json_Marshal demo_env = demo_json_Marshal"
  "json_Unmarshal demo_env = demo_json_Unmarshal"
  "saveMainchain demo_env = demo_saveMainchain"
  "saveUtxoView demo_env = demo_saveUtxoView"
  "getMainchain demo_env = demo_getMainchain"
  "cleanMainchainDB demo_env = demo_cleanMainchainDB"
  "maxCachedBlocks demo_env = 2"
  by (simp_all add: demo_env_def)

lemma Bytes_zero_hash: "Bytes zero_hash = replicate 32 (CHR 0x00)"
  by (simp add: zero_hash_def Abs_hash_inverse)

lemma Bytes_demo_hash: "Bytes (demo_hash c) = replicate 32 c"
  by (simp add: demo_hash_def Abs_hash_inverse)

lemma demo_hash_inject: "demo_hash c = demo_hash c' \<longleftrightarrow> c = c'"
  by (simp add: demo_hash_def Abs_hash_inject)

lemma demo_block_inject: "demo_block a = demo_block b \<longleftrightarrow> a = b"
  by (simp add: demo_block_def)

lemma demo_block_header: "BlockHeader (demo_block ht) = \<lparr>Height = ht, HeaderRest = ()\<rparr>"
  by (simp add: demo_block_def)

lemma demo_BlockHash_block:
  "demo_BlockHash (demo_block ht) = demo_hash (if ht = 1 then CHR ''a'' else CHR ''z'')"
  by (simp add: demo_BlockHash_def demo_block_def demo_hash_def)

lemma demo_SaveBlock_ok: "snd (SaveBlock demo_env s (demo_block ht) n h) = None"
  by (simp add: SaveBlock_def demo_Block_Marshal_def demo_block_def
      demo_Header_Marshal_def demo_TxStatus_Marshal_def demo_Hash_Marshal_def Let_def)

lemma demo_decodes_back:
  "decodes_back (Block_MarshalText demo_env) (Block_UnmarshalText demo_env) (demo_block ht)"
  "decodes_back (Header_MarshalText demo_env) (Header_UnmarshalText demo_env) bh"
  "decodes_back (TxStatus_Marshal demo_env) (TxStatus_Unmarshal demo_env) n"
  "decodes_back (Hash_Marshal demo_env) (Hash_Unmarshal demo_env) h"
  by (auto simp: decodes_back_def demo_Block_Marshal_def demo_Block_Unmarshal_def
      demo_block_def demo_Header_Marshal_def demo_Header_Unmarshal_def
      demo_TxStatus_Marshal_def demo_TxStatus_Unmarshal_def demo_Hash_Marshal_def
      demo_Hash_Unmarshal_def Bytes_length Bytes_inverse)

lemma demo_json_decodes_back:
  "decodes_back (json_Marshal demo_env) (json_Unmarshal demo_env) j"
  using Bytes_length [of "the (StateHash j)"]
  by (cases j) (auto simp: decodes_back_def demo_json_Marshal_def demo_json_Unmarshal_def
      Bytes_inverse split: option.splits)

lemma demo_prune_keeps_checkpoint: "prune_keeps demo_env isCheckpointKey"
  by (simp add: prune_keeps_def isCheckpointKey_def demo_cleanMainchainDB_def
      blockStoreKey_def)

lemma demo_stages_keep: "stages_keep demo_env blockFamilyKey"
  unfolding stages_keep_def stages_outside_def
  by (auto simp: demo_saveMainchain_def demo_saveUtxoView_def demo_mainchainKey_def
      not_blockFamilyKey split: list.splits)

lemma demo_prune_keeps_blocks: "prune_keeps demo_env blockFamilyKey"
  unfolding prune_keeps_def
proof (intro allI impI)
  fix d h k
  assume "blockFamilyKey k"
  then have "take 1 k = ''B''" by (rule blockFamilyKey_B)
  moreover have "take 1 k = ''M''" if "take 3 k = ''MC:''"
    using take_1_of_take [OF that] by simp
  ultimately have "take 3 k \<noteq> ''MC:''" by auto
  then show "cleanMainchainDB demo_env d h k = d k"
    by (simp add: demo_cleanMainchainDB_def)
qed

lemma Write_utxo_keeps:
  "take 3 k \<noteq> ''UT:'' \<Longrightarrow> Write (map (\<lambda>k. BatchSet (''UT:'' @ k) ''utxo'') view) d k = d k"
  by (rule Write_outside) auto

lemma demo_mainchainKey_facts:
  "take 3 (demo_mainchainKey h) = ''MC:''" "demo_mainchainKey h \<noteq> blockStoreKey"
  by (simp_all add: demo_mainchainKey_def blockStoreKey_def)

lemma demo_getMainchain_cong:
  "d (demo_mainchainKey h) = d' (demo_mainchainKey h) \<Longrightarrow>
   demo_getMainchain d h = demo_getMainchain d' h"
  by (simp add: demo_getMainchain_def)

lemma demo_index_contract: "index_contract demo_env"
proof -
  have save: "\<exists>ops. batch' = batch @ ops \<and>
           (\<forall>d. \<exists>mc. demo_getMainchain (Write ops d) h = (Some mc, None) \<and>
                 (\<forall>ht \<in> dom (map_of m). map_of mc ht = map_of m ht))"
    if "demo_saveMainchain batch m h = (batch', None)" for batch m h batch'
  proof (cases m)
    case Nil
    with that show ?thesis
      by (auto simp: demo_saveMainchain_def demo_getMainchain_def Write_def)
  next
    case (Cons p ps)
    with that have ps: "ps = []"
      by (auto simp: demo_saveMainchain_def split: list.splits prod.splits)
    obtain ht x where p: "p = (ht, x)" by (cases p)
    from that Cons ps p have
      "batch' = batch @ [BatchSet (demo_mainchainKey h) (Bytes x @ replicate (unat ht) (CHR ''m''))]"
      by (simp add: demo_saveMainchain_def)
    moreover have "demo_getMainchain
        (Write [BatchSet (demo_mainchainKey h) (Bytes x @ replicate (unat ht) (CHR ''m''))] d) h =
        (Some [(ht, x)], None)" for d
    proof -
      have "Bytes x \<noteq> []" using Bytes_length [of x] by auto
      then show ?thesis
        by (simp add: demo_getMainchain_def Write_def Bytes_inverse Bytes_length)
    qed
    ultimately show ?thesis
      using Cons ps p by auto
  qed
  have utxo: "\<exists>ops. batch' = batch @ ops \<and>
           (\<forall>d h. demo_getMainchain (Write ops d) h = demo_getMainchain d h)"
    if "demo_saveUtxoView batch v = (batch', None)" for batch v batch'
  proof -
    from that have "batch' = batch @ map (\<lambda>k. BatchSet (''UT:'' @ k) ''utxo'') v"
      by (simp add: demo_saveUtxoView_def)
    moreover have "demo_getMainchain (Write (map (\<lambda>k. BatchSet (''UT:'' @ k) ''utxo'') v) d) h =
        demo_getMainchain d h" for d h
      by (rule demo_getMainchain_cong, rule Write_utxo_keeps)
         (simp add: demo_mainchainKey_facts)
    ultimately show ?thesis by blast
  qed
  have chk: "demo_getMainchain (d(blockStoreKey \<mapsto> bs)) h = demo_getMainchain d h" for d bs h
    by (rule demo_getMainchain_cong) (simp add: demo_mainchainKey_facts)
  have prune: "demo_getMainchain (demo_cleanMainchainDB d h) h = demo_getMainchain d h" for d h
    by (rule demo_getMainchain_cong) (simp add: demo_cleanMainchainDB_def)
  show ?thesis
    unfolding index_contract_def using save utxo chk prune by simp
qed

section \<open>The store invariant\<close>

lemma GetBlock_cong: "d (calcBlockKey h) = d' (calcBlockKey h) \<Longrightarrow> GetBlock E d h = GetBlock E d' h"
  by (simp add: GetBlock_def)

lemma lookup_cache_subset:
  assumes "lookup cap fillFn c h = (r, c')" "e \<in> set c'"
  shows "e \<in> set c \<or> fillFn (fst e) = Some (snd e)"
proof (cases "map_of c h")
  case (Some b)
  with assms(1) have "c' = (h, b) # filter (\<lambda>e. fst e \<noteq> h) c"
    by (simp add: lookup_def)
  with assms(2) Some show ?thesis
    by (auto dest: map_of_SomeD)
next
  case None
  show ?thesis
  proof (cases "fillFn h")
    case fNone: None
    with None assms show ?thesis by (simp add: lookup_def)
  next
    case (Some b)
    with None assms(1) have "c' = take cap ((h, b) # c)"
      by (simp add: lookup_def)
    with assms(2) have "e \<in> set ((h, b) # c)"
      by (auto dest: in_set_takeD)
    with Some show ?thesis by auto
  qed
qed

lemma store_inv_mono: "store_inv E A s \<Longrightarrow> A \<subseteq> A' \<Longrightarrow> store_inv E A' s"
  unfolding store_inv_def by blast

lemma store_inv_cache:
  assumes "store_inv E A s" "lookup cap (GetBlock E (db s)) (cache s) h = (r, c')"
  shows "store_inv E A (s\<lparr>cache := c'\<rparr>)"
proof -
  have "GetBlock E (db s) (fst e) = Some (snd e)" if "e \<in> set c'" for e
    using lookup_cache_subset [OF assms(2) that] assms(1)
    unfolding store_inv_def by blast
  with assms(1) show ?thesis
    unfolding store_inv_def by simp
qed

lemma store_inv_db:
  assumes "store_inv E A s" "\<forall>h. d (calcBlockKey h) = db s (calcBlockKey h)"
  shows "store_inv E A (s\<lparr>db := d\<rparr>)"
  using assms GetBlock_cong [of d _ "db s" E]
  unfolding store_inv_def by auto

lemma store_inv_SaveBlock:
  assumes inv: "store_inv E A s" and inj: "inj_on (BlockHash E) (insert b A)"
  shows "store_inv E (insert b A) (fst (SaveBlock E s b ts seed))"
proof (cases "snd (SaveBlock E s b ts seed)")
  case (Some e)
  then have "fst (SaveBlock E s b ts seed) = s"
    by (auto simp: SaveBlock_def Let_def split: sum.splits)
  with inv show ?thesis by (auto intro: store_inv_mono)
next
  case None
  then obtain bb bh bt bsd where
    mb: "Block_MarshalText E b = Inr bb" and
    s': "fst (SaveBlock E s b ts seed) =
           s\<lparr>db := (db s)(calcBlockKey (BlockHash E b) \<mapsto> bb,
                           calcBlockHeaderKey (BlockHash E b) \<mapsto> bh,
                           calcTxStatusKey (BlockHash E b) \<mapsto> bt,
                           calcSeedKey (BlockHash E b) \<mapsto> bsd)\<rparr>"
    by (auto simp: SaveBlock_def Let_def NewBatch_def Write_def split: sum.splits)
  let ?d = "(db s)(calcBlockKey (BlockHash E b) \<mapsto> bb,
                   calcBlockHeaderKey (BlockHash E b) \<mapsto> bh,
                   calcTxStatusKey (BlockHash E b) \<mapsto> bt,
                   calcSeedKey (BlockHash E b) \<mapsto> bsd)"
  have at: "?d (calcBlockKey h) = (if h = BlockHash E b then Some bb else db s (calcBlockKey h))"
    for h
    using key_distinct by (auto simp: calc_inject)
  have dbpart: "\<exists>x \<in> insert b A. BlockHash E x = h \<and> Block_MarshalText E x = Inr bs"
    if "?d (calcBlockKey h) = Some bs" for h bs
  proof (cases "h = BlockHash E b")
    case True
    with that at mb show ?thesis by auto
  next
    case False
    with that at have "db s (calcBlockKey h) = Some bs" by simp
    with inv show ?thesis unfolding store_inv_def by blast
  qed
  have cachepart: "GetBlock E ?d (fst e) = Some (snd e)" if "e \<in> set (cache s)" for e
  proof -
    from inv that have g: "GetBlock E (db s) (fst e) = Some (snd e)"
      unfolding store_inv_def by blast
    show ?thesis
    proof (cases "fst e = BlockHash E b")
      case False
      with at have "?d (calcBlockKey (fst e)) = db s (calcBlockKey (fst e))" by simp
      with g GetBlock_cong [of ?d "fst e" "db s" E] show ?thesis by simp
    next
      case True
      from g obtain bs0 where old: "db s (calcBlockKey (fst e)) = Some bs0"
        by (auto simp: GetBlock_def split: option.splits)
      with inv obtain x where x: "x \<in> A" "BlockHash E x = fst e" "Block_MarshalText E x = Inr bs0"
        unfolding store_inv_def by blast
      with True inj_onD [OF inj, of x b] have "x = b" by simp
      with x mb have "bs0 = bb" by simp
      with old True at have "?d (calcBlockKey (fst e)) = db s (calcBlockKey (fst e))" by simp
      with g GetBlock_cong [of ?d "fst e" "db s" E] show ?thesis by simp
    qed
  qed
  show ?thesis
    unfolding s' store_inv_def using dbpart cachepart by simp
qed

lemma store_inv_step:
  assumes keep: "stages_keep E blockFamilyKey" "prune_keeps E blockFamilyKey"
    and inv: "store_inv E A s" and inj: "inj_on (BlockHash E) (A \<union> set (saved [c]))"
  shows "store_inv E (A \<union> set (saved [c])) (step E s c)"
proof (cases c)
  case (CallSaveBlock b ts seed)
  with store_inv_SaveBlock [OF inv, of b ts seed] inj show ?thesis by simp
next
  case (CallSaveChainStatus b v m)
  define d' where "d' = db (fst (SaveChainStatus E s b v m))"
  have "\<forall>h. d' (calcBlockKey h) = db s (calcBlockKey h)"
    unfolding d'_def
    using SaveChainStatus_keeps [OF keep blockStoreKey_not_family] blockFamilyKey_calc(1)
    by blast
  moreover have "fst (SaveChainStatus E s b v m) = s\<lparr>db := d'\<rparr>"
    unfolding d'_def
    by (auto simp: SaveChainStatus_def Let_def split: prod.splits option.splits sum.splits)
  ultimately show ?thesis
    using store_inv_db [OF inv, of d'] CallSaveChainStatus by simp
next
  case (CallSaveUtxoView v)
  with inv show ?thesis by (simp add: SaveUtxoView_def)
next
  case (CallGetBlock h)
  obtain r c' where "lookup (maxCachedBlocks E) (GetBlock E (db s)) (cache s) h = (r, c')"
    by (cases "lookup (maxCachedBlocks E) (GetBlock E (db s)) (cache s) h")
  with store_inv_cache [OF inv this] CallGetBlock show ?thesis
    by (simp add: Store_GetBlock_def)
next
  case (CallBlockExist h)
  obtain r c' where "lookup (maxCachedBlocks E) (GetBlock E (db s)) (cache s) h = (r, c')"
    by (cases "lookup (maxCachedBlocks E) (GetBlock E (db s)) (cache s) h")
  with store_inv_cache [OF inv this] CallBlockExist show ?thesis
    by (cases r) (simp add: Store_BlockExist_def)
next
  case CallNewStore
  with inv show ?thesis
    by (simp add: store_inv_def NewStore_def newBlockCache_def)
qed

lemma store_inv_run:
  assumes keep: "stages_keep E blockFamilyKey" "prune_keeps E blockFamilyKey"
    and inj: "inj_on (BlockHash E) (set (saved calls))"
  shows "store_inv E (set (saved calls)) (run E (NewStore Map.empty) calls)"
  using inj
proof (induction calls rule: rev_induct)
  case Nil
  show ?case by (simp add: run_def store_inv_def NewStore_def newBlockCache_def)
next
  case (snoc c calls)
  from snoc.prems have "inj_on (BlockHash E) (set (saved calls))"
    by (auto simp: saved_append intro: inj_on_subset)
  with snoc.IH have "store_inv E (set (saved calls)) (run E (NewStore Map.empty) calls)" .
  from store_inv_step [OF keep this] snoc.prems show ?case
    by (simp add: run_snoc saved_append)
qed

lemma store_inv_hit:
  assumes inv: "store_inv E A s" and d: "db s (calcBlockKey h) = Some bs"
  shows "fst (Store_GetBlock E s h) = (Some (fst (Block_UnmarshalText E bs)), None)"
proof (cases "map_of (cache s) h")
  case None
  with d show ?thesis
    by (simp add: Store_GetBlock_def lookup_def GetBlock_def split: prod.splits)
next
  case (Some b)
  then have "(h, b) \<in> set (cache s)" by (rule map_of_SomeD)
  with inv have "GetBlock E (db s) h = Some b"
    unfolding store_inv_def by fastforce
  with d have "b = fst (Block_UnmarshalText E bs)"
    by (simp add: GetBlock_def)
  with Some show ?thesis
    by (simp add: Store_GetBlock_def lookup_def)
qed

section \<open>Round trip of a saved block\<close>

text \<open>
  Claim C1. After a successful \<open>SaveBlock\<close> of a block \<open>B\<close> with status \<open>T\<close> and seed
  \<open>S\<close>, reading by the hash of \<open>B\<close> returns \<open>B\<close>, its header, \<open>T\<close> and \<open>S\<close>, each
  with a \<^verbatim>\<open>nil\<close> error. The store is any store reached from an empty database by a
  history of calls. The codecs are assumed to decode back what they encoded for \<open>B\<close>, its
  header, \<open>T\<close> and \<open>S\<close>; the blocks saved so far and \<open>B\<close> are assumed to have pairwise
  different hashes (the cache is keyed by hash and is not refreshed by \<open>SaveBlock\<close>); the
  helpers of \<open>SaveChainStatus\<close> are assumed to leave the keys of the block records alone.
\<close>

theorem SaveBlock_round_trip:
  assumes keep: "stages_keep E blockFamilyKey" "prune_keeps E blockFamilyKey"
    and inj: "inj_on (BlockHash E) (set (B # saved calls))"
    and codec: "decodes_back (Block_MarshalText E) (Block_UnmarshalText E) B"
      "decodes_back (Header_MarshalText E) (Header_UnmarshalText E) (BlockHeader B)"
      "decodes_back (TxStatus_Marshal E) (TxStatus_Unmarshal E) T"
      "decodes_back (Hash_Marshal E) (Hash_Unmarshal E) S"
    and ok: "snd (SaveBlock E (run E (NewStore Map.empty) calls) B T S) = None"
  shows "fst (Store_GetBlock E (fst (SaveBlock E (run E (NewStore Map.empty) calls) B T S))
               (BlockHash E B)) = (Some B, None) \<and>
         GetBlockHeader E (fst (SaveBlock E (run E (NewStore Map.empty) calls) B T S))
               (BlockHash E B) = (Some (BlockHeader B), None) \<and>
         GetTransactionStatus E (fst (SaveBlock E (run E (NewStore Map.empty) calls) B T S))
               (BlockHash E B) = (Some T, None) \<and>
         GetSeed E (fst (SaveBlock E (run E (NewStore Map.empty) calls) B T S))
               (BlockHash E B) = (Some S, None)"
proof -
  let ?s = "run E (NewStore Map.empty) calls"
  let ?s' = "fst (SaveBlock E ?s B T S)"
  let ?h = "BlockHash E B"
  from ok obtain bb bh bt bsd where
    m: "Block_MarshalText E B = Inr bb" "Header_MarshalText E (BlockHeader B) = Inr bh"
       "TxStatus_Marshal E T = Inr bt" "Hash_Marshal E S = Inr bsd" and
    s': "db ?s' = (db ?s)(calcBlockKey ?h \<mapsto> bb, calcBlockHeaderKey ?h \<mapsto> bh,
                           calcTxStatusKey ?h \<mapsto> bt, calcSeedKey ?h \<mapsto> bsd)"
    by (auto simp: SaveBlock_def Let_def NewBatch_def Write_def split: sum.splits)
  have at: "db ?s' (calcBlockKey ?h) = Some bb" "db ?s' (calcBlockHeaderKey ?h) = Some bh"
    "db ?s' (calcTxStatusKey ?h) = Some bt" "db ?s' (calcSeedKey ?h) = Some bsd"
    unfolding s' using key_distinct key_distinct [symmetric] by simp_all
  from codec m have dec: "Block_UnmarshalText E bb = (B, None)"
    "Header_UnmarshalText E bh = (BlockHeader B, None)"
    "TxStatus_Unmarshal E bt = (T, None)" "Hash_Unmarshal E bsd = (S, None)"
    by (simp_all add: decodes_back_def)
  from inj have "inj_on (BlockHash E) (set (saved calls))"
    by (auto intro: inj_on_subset)
  from store_inv_run [OF keep this] have "store_inv E (set (saved calls)) ?s" .
  from store_inv_SaveBlock [OF this, of B T S] inj
  have "store_inv E (insert B (set (saved calls))) ?s'" by simp
  from store_inv_hit [OF this at(1)] dec(1)
  have "fst (Store_GetBlock E ?s' ?h) = (Some B, None)" by simp
  moreover have "GetBlockHeader E ?s' ?h = (Some (BlockHeader B), None)"
    using at(2) dec(2) by (simp add: GetBlockHeader_def)
  moreover have "GetTransactionStatus E ?s' ?h = (Some T, None)"
    using at(3) dec(3) by (simp add: GetTransactionStatus_def)
  moreover have "GetSeed E ?s' ?h = (Some S, None)"
    using at(4) dec(4) by (simp add: GetSeed_def)
  ultimately show ?thesis by simp
qed

theorem SaveBlock_round_trip_witness:
  "stages_keep demo_env blockFamilyKey \<and> prune_keeps demo_env blockFamilyKey \<and>
   inj_on (BlockHash demo_env) (set (demo_block 1 # saved demo_history)) \<and>
   snd (SaveBlock demo_env (run demo_env (NewStore Map.empty) demo_history)
          (demo_block 1) 2 (demo_hash (CHR ''q''))) = None \<and>
   fst (Store_GetBlock demo_env
          (fst (SaveBlock demo_env (run demo_env (NewStore Map.empty) demo_history)
                  (demo_block 1) 2 (demo_hash (CHR ''q''))))
          (demo_hash (CHR ''a''))) = (Some (demo_block 1), None) \<and>
   GetBlockHeader demo_env
          (fst (SaveBlock demo_env (run demo_env (NewStore Map.empty) demo_history)
                  (demo_block 1) 2 (demo_hash (CHR ''q''))))
          (demo_hash (CHR ''a'')) = (Some \<lparr>Height = 1, HeaderRest = ()\<rparr>, None) \<and>
   GetTransactionStatus demo_env
          (fst (SaveBlock demo_env (run demo_env (NewStore Map.empty) demo_history)
                  (demo_block 1) 2 (demo_hash (CHR ''q''))))
          (demo_hash (CHR ''a'')) = (Some 2, None) \<and>
   GetSeed demo_env
          (fst (SaveBlock demo_env (run demo_env (NewStore Map.empty) demo_history)
                  (demo_block 1) 2 (demo_hash (CHR ''q''))))
          (demo_hash (CHR ''a'')) = (Some (demo_hash (CHR ''q'')), None)"
proof -
  have inj: "inj_on (BlockHash demo_env) (set (demo_block 1 # saved demo_history))"
    by (simp add: demo_history_def demo_BlockHash_block demo_hash_inject demo_block_inject)
  have h: "BlockHash demo_env (demo_block 1) = demo_hash (CHR ''a'')"
    by (simp add: demo_BlockHash_block)
  from SaveBlock_round_trip [OF demo_stages_keep demo_prune_keeps_blocks inj
      demo_decodes_back demo_SaveBlock_ok]
    demo_stages_keep demo_prune_keeps_blocks inj demo_SaveBlock_ok
  show ?thesis
    by (simp only: h demo_block_header)
qed

section \<open>Advancing the chain status\<close>

text \<open>
  Claim C2. After a successful \<open>SaveChainStatus\<close> for a block \<open>B\<close>, \<open>GetStoreStatus\<close>
  returns the checkpoint with the height and the hash of \<open>B\<close>, and the mainchain map read
  back for the hash of \<open>B\<close> gives, for every height of the map that was passed in, the hash
  that map gives. The checkpoint codec is assumed to decode back the new checkpoint, pruning
  is assumed to keep the checkpoint key, and the index helpers are assumed to meet
  \<open>index_contract\<close>.
\<close>

theorem SaveChainStatus_checkpoint:
  assumes idx: "index_contract E" and prune: "prune_keeps E isCheckpointKey"
    and codec: "decodes_back (json_Marshal E) (json_Unmarshal E)
                  \<lparr>StateHeight = Height (BlockHeader B), StateHash = Some (BlockHash E B)\<rparr>"
    and ok: "snd (SaveChainStatus E s B v m) = None"
  shows "GetStoreStatus E (fst (SaveChainStatus E s B v m)) =
           Inr \<lparr>StateHeight = Height (BlockHeader B), StateHash = Some (BlockHash E B)\<rparr> \<and>
         (\<exists>mc. GetMainchain E (fst (SaveChainStatus E s B v m)) (BlockHash E B) = (Some mc, None) \<and>
               (\<forall>ht \<in> dom (map_of m). map_of mc ht = map_of m ht))"
proof -
  let ?h = "BlockHash E B"
  let ?j = "\<lparr>StateHeight = Height (BlockHeader B), StateHash = Some ?h\<rparr>"
  from ok obtain batch1 batch2 bytes where
    sm: "saveMainchain E NewBatch m ?h = (batch1, None)" and
    su: "saveUtxoView E batch1 v = (batch2, None)" and
    jm: "json_Marshal E ?j = Inr bytes" and
    s': "db (fst (SaveChainStatus E s B v m)) =
           cleanMainchainDB E (Write (batch2 @ [BatchSet blockStoreKey bytes]) (db s)) ?h"
    by (auto simp: SaveChainStatus_def Let_def split: prod.splits option.splits sum.splits)
  let ?d = "Write (batch2 @ [BatchSet blockStoreKey bytes]) (db s)"
  have "db (fst (SaveChainStatus E s B v m)) blockStoreKey = ?d blockStoreKey"
    using prune unfolding s' by (simp add: prune_keeps_def isCheckpointKey_def)
  also have "\<dots> = Some bytes"
    by (rule Write_last_Set)
  finally have chk: "db (fst (SaveChainStatus E s B v m)) blockStoreKey = Some bytes" .
  from codec jm have "json_Unmarshal E bytes = (?j, None)"
    by (simp add: decodes_back_def)
  with chk have status: "GetStoreStatus E (fst (SaveChainStatus E s B v m)) = Inr ?j"
    by (simp add: GetStoreStatus_def loadBlockStoreStateJSON_def)
  from idx sm obtain ops1 where
    b1: "batch1 = NewBatch @ ops1" and
    r1: "\<forall>d. \<exists>mc. getMainchain E (Write ops1 d) ?h = (Some mc, None) \<and>
               (\<forall>ht \<in> dom (map_of m). map_of mc ht = map_of m ht)"
    unfolding index_contract_def by blast
  from idx su obtain ops2 where
    b2: "batch2 = batch1 @ ops2" and
    r2: "\<forall>d h. getMainchain E (Write ops2 d) h = getMainchain E d h"
    unfolding index_contract_def by blast
  from idx have r3: "getMainchain E (d(blockStoreKey \<mapsto> bs)) h = getMainchain E d h" for d bs h
    unfolding index_contract_def by blast
  from idx have r4: "getMainchain E (cleanMainchainDB E d h) h = getMainchain E d h" for d h
    unfolding index_contract_def by blast
  have "?d = (Write ops2 (Write ops1 (db s)))(blockStoreKey \<mapsto> bytes)"
    by (simp add: b1 b2 NewBatch_def Write_append Write_def)
  then have "getMainchain E (cleanMainchainDB E ?d ?h) ?h = getMainchain E (Write ops1 (db s)) ?h"
    using r2 by (simp add: r3 r4)
  with r1 s' have "\<exists>mc. GetMainchain E (fst (SaveChainStatus E s B v m)) ?h = (Some mc, None) \<and>
               (\<forall>ht \<in> dom (map_of m). map_of mc ht = map_of m ht)"
    by (simp add: GetMainchain_def)
  with status show ?thesis by simp
qed

theorem SaveChainStatus_checkpoint_witness:
  "index_contract demo_env \<and> prune_keeps demo_env isCheckpointKey \<and>
   snd (SaveChainStatus demo_env empty_store (demo_block 1) [''k'']
          [(1, demo_hash (CHR ''a''))]) = None \<and>
   GetStoreStatus demo_env
     (fst (SaveChainStatus demo_env empty_store (demo_block 1) [''k'']
             [(1, demo_hash (CHR ''a''))])) =
     Inr \<lparr>StateHeight = 1, StateHash = Some (demo_hash (CHR ''a''))\<rparr> \<and>
   (\<exists>mc. GetMainchain demo_env
            (fst (SaveChainStatus demo_env empty_store (demo_block 1) [''k'']
                    [(1, demo_hash (CHR ''a''))]))
            (demo_hash (CHR ''a'')) = (Some mc, None) \<and>
         map_of mc 1 = Some (demo_hash (CHR ''a'')))"
proof -
  have ok: "snd (SaveChainStatus demo_env empty_store (demo_block 1) [''k'']
          [(1, demo_hash (CHR ''a''))]) = None"
    by (simp add: SaveChainStatus_def demo_saveMainchain_def
        demo_saveUtxoView_def demo_json_Marshal_def Let_def)
  have h: "BlockHash demo_env (demo_block 1) = demo_hash (CHR ''a'')"
    by (simp add: demo_BlockHash_block)
  from SaveChainStatus_checkpoint [OF demo_index_contract demo_prune_keeps_checkpoint
      demo_json_decodes_back ok]
    demo_index_contract demo_prune_keeps_checkpoint ok
  show ?thesis
    by (simp only: h demo_block_header) auto
qed

section \<open>Bytes that do not decode\<close>

text \<open>
  Claim C3. The claim is that a read whose bytes do not decode reports the corruption and
  returns no value. \<open>GetSeed\<close> and \<open>GetTransactionStatus\<close> return the wrapped decoder
  error, \<open>GetBlockHeader\<close> returns the decoder's error, and \<open>GetStoreStatus\<close> panics.
  \<open>GetBlock\<close> does not: it drops the error of \<^verbatim>\<open>UnmarshalText\<close> and returns the block as
  the failed decoder left it, so the claim fails there. The theorem states what \<open>GetBlock\<close>
  returns on such bytes.
\<close>

theorem GetBlock_drops_decode_error:
  assumes "d (calcBlockKey h) = Some bs" "snd (Block_UnmarshalText E bs) \<noteq> None"
  shows "GetBlock E d h = Some (fst (Block_UnmarshalText E bs))"
  using assms by (simp add: GetBlock_def)

theorem GetBlock_drops_decode_error_witness:
  "[calcBlockKey zero_hash \<mapsto> ''corrupt''] (calcBlockKey zero_hash) = Some ''corrupt'' \<and>
   snd (Block_UnmarshalText demo_env ''corrupt'') = Some (New ''invalid block'') \<and>
   GetBlock demo_env [calcBlockKey zero_hash \<mapsto> ''corrupt''] zero_hash = Some (demo_block 0)"
proof -
  have u: "Block_UnmarshalText demo_env ''corrupt'' = (demo_block 0, Some (New ''invalid block''))"
    by (simp add: demo_Block_Unmarshal_def demo_block_def)
  from GetBlock_drops_decode_error
    [of "[calcBlockKey zero_hash \<mapsto> ''corrupt'']" zero_hash "''corrupt''" demo_env] u
  show ?thesis by simp
qed

text \<open>
  Through the store, a first read of such a key returns that block with a \<^verbatim>\<open>nil\<close>
  error and \<open>BlockExist\<close> answers true, while the other reads report the failure.
\<close>

lemma Store_GetBlock_corrupt:
  assumes "d (calcBlockKey h) = Some bs"
  shows "fst (Store_GetBlock E (NewStore d) h) = (Some (fst (Block_UnmarshalText E bs)), None)"
    and "fst (Store_BlockExist E (NewStore d) h)"
  using assms
  by (simp_all add: GetBlock_def Store_GetBlock_def Store_BlockExist_def NewStore_def
      newBlockCache_def lookup_def)

lemma decode_failure_reported_elsewhere:
  "db s (calcSeedKey h) = Some bs \<Longrightarrow> snd (Hash_Unmarshal E bs) = Some e \<Longrightarrow>
     GetSeed E s h = (None, Some (Wrap e ''unmarshaling seed''))"
  "db s (calcTxStatusKey h) = Some bs \<Longrightarrow> snd (TxStatus_Unmarshal E bs) = Some e \<Longrightarrow>
     GetTransactionStatus E s h = (None, Some (Wrap e ''unmarshaling transaction status''))"
  "db s (calcBlockHeaderKey h) = Some bs \<Longrightarrow> snd (Header_UnmarshalText E bs) = Some e \<Longrightarrow>
     snd (GetBlockHeader E s h) = Some e"
  "db s blockStoreKey = Some bs \<Longrightarrow> snd (json_Unmarshal E bs) = Some e \<Longrightarrow>
     GetStoreStatus E s = Inl (PanicCrisis bs)"
  by (auto simp: GetSeed_def GetTransactionStatus_def GetBlockHeader_def GetStoreStatus_def
      loadBlockStoreStateJSON_def split: prod.splits)

section \<open>Hashes that were never saved\<close>

text \<open>
  Claim C4. For a hash that no \<open>SaveBlock\<close> of the history was called with,
  \<open>GetBlockHeader\<close>, \<open>GetSeed\<close> and \<open>GetTransactionStatus\<close> return no value and the
  error that says the record cannot be found: an error made by \<^verbatim>\<open>errors.New\<close>, not a
  wrapped decoder error. None of the three has a panicking branch. The helpers of
  \<open>SaveChainStatus\<close> are assumed to leave the keys of the block records alone.
\<close>

theorem never_saved_NotFound:
  assumes "stages_keep E blockFamilyKey" "prune_keeps E blockFamilyKey"
    and "H \<notin> BlockHash E ` set (saved calls)"
  shows "GetBlockHeader E (run E (NewStore Map.empty) calls) H =
           (None, Some (New ''can't find the block header by given hash'')) \<and>
         GetSeed E (run E (NewStore Map.empty) calls) H =
           (None, Some (New ''can't find the seed by given hash'')) \<and>
         GetTransactionStatus E (run E (NewStore Map.empty) calls) H =
           (None, Some (New ''can't find the transaction status by given hash''))"
  using run_keeps_absent [OF assms, of _ "NewStore Map.empty"]
  by (simp add: GetBlockHeader_def GetSeed_def GetTransactionStatus_def NewStore_def)

theorem never_saved_NotFound_witness:
  "stages_keep demo_env blockFamilyKey \<and> prune_keeps demo_env blockFamilyKey \<and>
   demo_hash (CHR ''q'') \<notin> BlockHash demo_env `
     set (saved [CallSaveBlock (demo_block 1) 2 zero_hash,
                 CallGetBlock (demo_hash (CHR ''q'')),
                 CallSaveChainStatus (demo_block 1) [] [(1, demo_hash (CHR ''a''))]]) \<and>
   GetBlockHeader demo_env
     (run demo_env (NewStore Map.empty)
        [CallSaveBlock (demo_block 1) 2 zero_hash,
         CallGetBlock (demo_hash (CHR ''q'')),
         CallSaveChainStatus (demo_block 1) [] [(1, demo_hash (CHR ''a''))]])
     (demo_hash (CHR ''q'')) =
     (None, Some (New ''can't find the block header by given hash'')) \<and>
   GetSeed demo_env
     (run demo_env (NewStore Map.empty)
        [CallSaveBlock (demo_block 1) 2 zero_hash,
         CallGetBlock (demo_hash (CHR ''q'')),
         CallSaveChainStatus (demo_block 1) [] [(1, demo_hash (CHR ''a''))]])
     (demo_hash (CHR ''q'')) =
     (None, Some (New ''can't find the seed by given hash'')) \<and>
   GetTransactionStatus demo_env
     (run demo_env (NewStore Map.empty)
        [CallSaveBlock (demo_block 1) 2 zero_hash,
         CallGetBlock (demo_hash (CHR ''q'')),
         CallSaveChainStatus (demo_block 1) [] [(1, demo_hash (CHR ''a''))]])
     (demo_hash (CHR ''q'')) =
     (None, Some (New ''can't find the transaction status by given hash''))"
proof -
  have notin: "demo_hash (CHR ''q'') \<notin> BlockHash demo_env `
     set (saved [CallSaveBlock (demo_block 1) 2 zero_hash,
                 CallGetBlock (demo_hash (CHR ''q'')),
                 CallSaveChainStatus (demo_block 1) [] [(1, demo_hash (CHR ''a''))]])"
    by (simp add: demo_BlockHash_block demo_hash_inject)
  from never_saved_NotFound [OF demo_stages_keep demo_prune_keeps_blocks notin]
    demo_stages_keep demo_prune_keeps_blocks notin
  show ?thesis by simp
qed

section \<open>Failed encoding\<close>

text \<open>
  Claim C5. When an encode step fails, the operation returns an error and the store is
  unchanged. For \<open>SaveBlock\<close> the encode steps are the four marshalling calls; for
  \<open>SaveChainStatus\<close> they are the staging of the mainchain map, the staging of the UTXO
  view and the marshalling of the checkpoint.
\<close>

theorem encode_failure_no_effect:
  "(isl (Block_MarshalText E B) \<or> isl (Header_MarshalText E (BlockHeader B)) \<or>
    isl (TxStatus_Marshal E T) \<or> isl (Hash_Marshal E S) \<longrightarrow>
      snd (SaveBlock E s B T S) \<noteq> None \<and> fst (SaveBlock E s B T S) = s) \<and>
   (snd (saveMainchain E NewBatch m (BlockHash E B)) \<noteq> None \<or>
    snd (saveUtxoView E (fst (saveMainchain E NewBatch m (BlockHash E B))) v) \<noteq> None \<or>
    isl (json_Marshal E \<lparr>StateHeight = Height (BlockHeader B),
                          StateHash = Some (BlockHash E B)\<rparr>) \<longrightarrow>
      snd (SaveChainStatus E s B v m) \<noteq> None \<and> fst (SaveChainStatus E s B v m) = s)"
proof (intro conjI impI)
  assume "isl (Block_MarshalText E B) \<or> isl (Header_MarshalText E (BlockHeader B)) \<or>
    isl (TxStatus_Marshal E T) \<or> isl (Hash_Marshal E S)"
  then show "snd (SaveBlock E s B T S) \<noteq> None" "fst (SaveBlock E s B T S) = s"
    by (auto simp: SaveBlock_def Let_def split: sum.splits)
next
  assume "snd (saveMainchain E NewBatch m (BlockHash E B)) \<noteq> None \<or>
    snd (saveUtxoView E (fst (saveMainchain E NewBatch m (BlockHash E B))) v) \<noteq> None \<or>
    isl (json_Marshal E \<lparr>StateHeight = Height (BlockHeader B),
                          StateHash = Some (BlockHash E B)\<rparr>)"
  then show "snd (SaveChainStatus E s B v m) \<noteq> None" "fst (SaveChainStatus E s B v m) = s"
    by (auto simp: SaveChainStatus_def Let_def split: sum.splits prod.splits option.splits)
qed

theorem encode_failure_no_effect_witness:
  "snd (SaveBlock demo_env empty_store ((demo_block 1)\<lparr>Transactions := [7]\<rparr>) 0 zero_hash) \<noteq> None \<and>
   fst (SaveBlock demo_env empty_store ((demo_block 1)\<lparr>Transactions := [7]\<rparr>) 0 zero_hash) = empty_store \<and>
   snd (SaveChainStatus demo_env empty_store (demo_block 1) []
          [(0, zero_hash), (1, zero_hash)]) \<noteq> None \<and>
   fst (SaveChainStatus demo_env empty_store (demo_block 1) []
          [(0, zero_hash), (1, zero_hash)]) = empty_store"
  using encode_failure_no_effect [of demo_env "(demo_block 1)\<lparr>Transactions := [7]\<rparr>" 0 zero_hash
      empty_store "[(0, zero_hash), (1, zero_hash)]" "[]"]
    encode_failure_no_effect [of demo_env "demo_block 1" 0 zero_hash
      empty_store "[(0, zero_hash), (1, zero_hash)]" "[]"]
  by (simp add: demo_env_def demo_Block_Marshal_def demo_block_def demo_saveMainchain_def)

section \<open>Key layout\<close>

text \<open>
  Claim C6. The persisted keys are bit-exact: the four key functions put the byte strings
  \<^verbatim>\<open>"B:"\<close>, \<^verbatim>\<open>"BH:"\<close>, \<^verbatim>\<open>"BS:"\<close>, \<^verbatim>\<open>"BTS:"\<close> in front of the 32 bytes of the
  hash, and the checkpoint key is the literal \<^verbatim>\<open>"blockStore"\<close>. A successful
  \<open>SaveBlock\<close> leaves the encoded block, header, seed and transaction status under these
  keys, and a successful \<open>SaveChainStatus\<close> leaves the encoded checkpoint under
  \<^verbatim>\<open>"blockStore"\<close>, provided pruning does not touch that key.
\<close>

theorem key_layout:
  "calcBlockKey H = ''B:'' @ Bytes H \<and>
   calcBlockHeaderKey H = ''BH:'' @ Bytes H \<and>
   calcSeedKey H = ''BS:'' @ Bytes H \<and>
   calcTxStatusKey H = ''BTS:'' @ Bytes H \<and>
   blockStoreKey = ''blockStore'' \<and>
   length (Bytes H) = 32 \<and>
   (snd (SaveBlock E s B T S) = None \<longrightarrow>
      db (fst (SaveBlock E s B T S)) (''B:'' @ Bytes (BlockHash E B)) =
        Some (projr (Block_MarshalText E B)) \<and>
      db (fst (SaveBlock E s B T S)) (''BH:'' @ Bytes (BlockHash E B)) =
        Some (projr (Header_MarshalText E (BlockHeader B))) \<and>
      db (fst (SaveBlock E s B T S)) (''BS:'' @ Bytes (BlockHash E B)) =
        Some (projr (Hash_Marshal E S)) \<and>
      db (fst (SaveBlock E s B T S)) (''BTS:'' @ Bytes (BlockHash E B)) =
        Some (projr (TxStatus_Marshal E T))) \<and>
   (snd (SaveChainStatus E s B v m) = None \<and> prune_keeps E isCheckpointKey \<longrightarrow>
      db (fst (SaveChainStatus E s B v m)) ''blockStore'' =
        Some (projr (json_Marshal E \<lparr>StateHeight = Height (BlockHeader B),
                                      StateHash = Some (BlockHash E B)\<rparr>)))"
proof -
  have keys: "calcBlockKey H = ''B:'' @ Bytes H" "calcBlockHeaderKey H = ''BH:'' @ Bytes H"
    "calcSeedKey H = ''BS:'' @ Bytes H" "calcTxStatusKey H = ''BTS:'' @ Bytes H"
    "blockStoreKey = ''blockStore''" for H
    by (simp_all add: calcBlockKey_def calcBlockHeaderKey_def calcSeedKey_def
        calcTxStatusKey_def blockPrefix_def blockHeaderPrefix_def blockSeedPrefix_def
        txStatusPrefix_def blockStoreKey_def)
  have save: "db (fst (SaveBlock E s B T S)) (''B:'' @ Bytes (BlockHash E B)) =
        Some (projr (Block_MarshalText E B)) \<and>
      db (fst (SaveBlock E s B T S)) (''BH:'' @ Bytes (BlockHash E B)) =
        Some (projr (Header_MarshalText E (BlockHeader B))) \<and>
      db (fst (SaveBlock E s B T S)) (''BS:'' @ Bytes (BlockHash E B)) =
        Some (projr (Hash_Marshal E S)) \<and>
      db (fst (SaveBlock E s B T S)) (''BTS:'' @ Bytes (BlockHash E B)) =
        Some (projr (TxStatus_Marshal E T))"
    if "snd (SaveBlock E s B T S) = None"
    using that
    by (simp add: SaveBlock_def NewBatch_def Write_def Let_def keys split: sum.splits)
  have chk: "db (fst (SaveChainStatus E s B v m)) ''blockStore'' =
        Some (projr (json_Marshal E \<lparr>StateHeight = Height (BlockHeader B),
                                      StateHash = Some (BlockHash E B)\<rparr>))"
    if "snd (SaveChainStatus E s B v m) = None" "prune_keeps E isCheckpointKey"
    using that Write_last_Set [of _ blockStoreKey]
    by (auto simp: SaveChainStatus_def Let_def prune_keeps_def isCheckpointKey_def
        keys [symmetric] split: sum.splits prod.splits option.splits)
  show ?thesis
    using save chk by (simp add: keys Bytes_length)
qed

theorem key_layout_witness:
  "snd (SaveBlock demo_env empty_store (demo_block 1) 2 zero_hash) = None \<and>
   db (fst (SaveBlock demo_env empty_store (demo_block 1) 2 zero_hash))
      (''B:'' @ replicate 32 (CHR ''a'')) = Some ''bh'' \<and>
   db (fst (SaveBlock demo_env empty_store (demo_block 1) 2 zero_hash))
      (''BH:'' @ replicate 32 (CHR ''a'')) = Some ''h'' \<and>
   db (fst (SaveBlock demo_env empty_store (demo_block 1) 2 zero_hash))
      (''BS:'' @ replicate 32 (CHR 0x00)) = None \<and>
   db (fst (SaveBlock demo_env empty_store (demo_block 1) 2 zero_hash))
      (''BS:'' @ replicate 32 (CHR ''a'')) = Some (replicate 32 (CHR 0x00)) \<and>
   db (fst (SaveBlock demo_env empty_store (demo_block 1) 2 zero_hash))
      (''BTS:'' @ replicate 32 (CHR ''a'')) = Some ''tt'' \<and>
   snd (SaveChainStatus demo_env empty_store (demo_block 1) [] []) = None \<and>
   prune_keeps demo_env isCheckpointKey \<and>
   db (fst (SaveChainStatus demo_env empty_store (demo_block 1) [] [])) ''blockStore'' =
     Some (CHR ''s'' # replicate 32 (CHR ''a'') @ ''j'')"
proof -
  have ok: "snd (SaveBlock demo_env empty_store (demo_block 1) 2 zero_hash) = None"
    by (simp add: SaveBlock_def demo_Block_Marshal_def demo_block_def
        demo_Header_Marshal_def demo_TxStatus_Marshal_def demo_Hash_Marshal_def Let_def)
  have ok2: "snd (SaveChainStatus demo_env empty_store (demo_block 1) [] []) = None"
    by (simp add: SaveChainStatus_def demo_saveMainchain_def
        demo_saveUtxoView_def demo_json_Marshal_def Let_def)
  have h: "Bytes (demo_BlockHash (demo_block 1)) = replicate 32 (CHR ''a'')"
    by (simp add: demo_BlockHash_def demo_block_def Abs_hash_inverse)
  have other: "db (fst (SaveBlock demo_env empty_store (demo_block 1) 2 zero_hash))
      (''BS:'' @ replicate 32 (CHR 0x00)) = None"
    by (simp add: SaveBlock_def demo_Block_Marshal_def demo_block_def
        demo_Header_Marshal_def demo_TxStatus_Marshal_def demo_Hash_Marshal_def Let_def
        NewBatch_def Write_def empty_store_def NewStore_def calcBlockKey_def
        calcBlockHeaderKey_def calcSeedKey_def calcTxStatusKey_def blockPrefix_def
        blockHeaderPrefix_def blockSeedPrefix_def txStatusPrefix_def
        demo_BlockHash_def Abs_hash_inverse)
  have r2: "replicate 2 (CHR ''t'') = ''tt''"
    by (simp add: numeral_2_eq_2)
  show ?thesis
    using key_layout [of _ demo_env empty_store "demo_block 1" 2 zero_hash "[]" "[]"]
      ok ok2 demo_prune_keeps_checkpoint h other
    by (simp add: demo_Block_Marshal_def demo_block_def
        demo_Header_Marshal_def demo_TxStatus_Marshal_def demo_Hash_Marshal_def
        demo_json_Marshal_def Bytes_zero_hash r2 blockStoreKey_def)
qed

section \<open>The default checkpoint\<close>

text \<open>
  Claim C7. When the key \<^verbatim>\<open>"blockStore"\<close> is absent from the substrate,
  \<open>GetStoreStatus\<close> returns the status with height 0 and no hash; it neither panics nor
  returns an error.
\<close>

theorem GetStoreStatus_default:
  "db s blockStoreKey = None \<Longrightarrow>
   GetStoreStatus E s = Inr \<lparr>StateHeight = 0, StateHash = None\<rparr>"
  by (simp add: GetStoreStatus_def loadBlockStoreStateJSON_def)

theorem GetStoreStatus_default_witness:
  "db empty_store blockStoreKey = None \<and>
   GetStoreStatus demo_env empty_store = Inr \<lparr>StateHeight = 0, StateHash = None\<rparr>"
  using GetStoreStatus_default [of empty_store demo_env]
  by (simp add: empty_store_def NewStore_def)

section \<open>Saving a block twice\<close>

text \<open>
  Claim C8. \<open>SaveBlock\<close> is idempotent: a second call with the same block, status and
  seed returns what the first call returned and leaves the store, hence the substrate,
  exactly as the first call left it.
\<close>

theorem SaveBlock_idempotent:
  "SaveBlock E (fst (SaveBlock E s B T S)) B T S = SaveBlock E s B T S"
  by (simp add: SaveBlock_def NewBatch_def Write_idem4 Let_def split: sum.splits)

section \<open>The method SaveUtxoView\<close>

text \<open>
  Claim C9. The method \<open>SaveUtxoView\<close> stages the view into a fresh batch and returns
  the error of that staging, but the batch is never written: the store, hence the
  substrate, is unchanged whatever the view and whatever the outcome.
\<close>

theorem SaveUtxoView_never_commits:
  "fst (SaveUtxoView E s v) = s \<and>
   snd (SaveUtxoView E s v) = snd (saveUtxoView E NewBatch v)"
  by (simp add: SaveUtxoView_def)

end
